theory Spec2Isabelle
  imports Main
begin

section \<open>Runtime values\<close>

text \<open>
  The values a descriptor is checked against. A number carries an integer payload or is
  \<open>NaN\<close>: the descriptors below only compare numbers with \<open>===\<close> and test their
  truthiness. An object or function carries its identity and the identities of the
  constructors whose \<open>prototype\<close> lies on its prototype chain, which is what
  \<open>instanceof\<close> inspects. A function also tells whether its own \<open>prototype\<close>
  property is an object: it is for a class or a \<open>function\<close> declaration, it is not for
  an arrow function, a method or most built-in functions.
\<close>

datatype val =
    VUndefined
  | VNull
  | VBool bool
  | VNum int
  | VNaN
  | VStr string
  | VSym nat
  | VObject nat "nat list"
  | VFunction nat "nat list" bool

datatype error = NotImplemented | TypeError | RuntimeTypeError string

text \<open>\<open>a === b\<close>: identity, except that \<open>NaN\<close> differs from itself. (An object is
  its identity together with its chain, one chain per identity.)\<close>

definition strict_eq :: "val \<Rightarrow> val \<Rightarrow> bool" where
  "strict_eq a b = (a = b \<and> a \<noteq> VNaN)"

text \<open>\<open>v == null\<close> (and so \<open>v != null\<close> as its negation).\<close>

definition eq_null :: "val \<Rightarrow> bool" where
  "eq_null v = (v = VNull \<or> v = VUndefined)"

text \<open>The truthiness a condition \<open>if (v)\<close> or \<open>a && b\<close> tests.\<close>

fun truthy :: "val \<Rightarrow> bool" where
  "truthy VUndefined = False"
| "truthy VNull = False"
| "truthy (VBool b) = b"
| "truthy (VNum n) = (n \<noteq> 0)"
| "truthy VNaN = False"
| "truthy (VStr s) = (s \<noteq> [])"
| "truthy (VSym _) = True"
| "truthy (VObject _ _) = True"
| "truthy (VFunction _ _ _) = True"

fun typeof :: "val \<Rightarrow> string" where
  "typeof VUndefined = ''undefined''"
| "typeof VNull = ''object''"
| "typeof (VBool _) = ''boolean''"
| "typeof (VNum _) = ''number''"
| "typeof VNaN = ''number''"
| "typeof (VStr _) = ''string''"
| "typeof (VSym _) = ''symbol''"
| "typeof (VObject _ _) = ''object''"
| "typeof (VFunction _ _ _) = ''function''"

text \<open>Whether a value is an object (functions are), not a primitive.\<close>

fun is_object :: "val \<Rightarrow> bool" where
  "is_object (VObject _ _) = True"
| "is_object (VFunction _ _ _) = True"
| "is_object _ = False"

text \<open>
  \<open>input instanceof ctor\<close>. It throws a \<open>TypeError\<close> when \<open>ctor\<close> is not a
  function. For a function it is false when \<open>input\<close> is a primitive; for an object it
  reads \<open>ctor.prototype\<close>, throws a \<open>TypeError\<close> when that is not an object, and
  otherwise looks for it on the chain of \<open>input\<close>.
\<close>

fun instanceof :: "val \<Rightarrow> val \<Rightarrow> error + bool" where
  "instanceof input (VFunction f _ has_prototype) =
     (if \<not> is_object input then Inr False
      else if \<not> has_prototype then Inl TypeError
      else (case input of
              VObject _ chain \<Rightarrow> Inr (f \<in> set chain)
            | VFunction _ chain _ \<Rightarrow> Inr (f \<in> set chain)
            | _ \<Rightarrow> Inr False))"
| "instanceof input _ = Inl TypeError"

text \<open>\<open>xs[i]\<close> for an array \<open>xs\<close>: \<open>undefined\<close> past its end.\<close>

definition element :: "val list \<Rightarrow> nat \<Rightarrow> val" where
  "element xs i = (if i < length xs then xs ! i else VUndefined)"

section \<open>Type nodes\<close>

text \<open>
  The node classes of \<open>types/\<close>: the base class \<open>Type\<close>, \<open>VoidType\<close>,
  \<open>SymbolLiteralType\<close> (its \<open>value\<close> is a symbol, kept by identity), \<open>ThisType\<close>
  (its \<open>recorded\<close> value; \<open>VUndefined\<close> when nothing is captured), \<open>NullableType\<close>
  and \<open>FlowIntoType\<close>. \<open>ContextType\<close> stands for a node of any other class: the
  descriptors \<open>TypeContext\<close> hands out (among them \<open>AnyType\<close> and
  \<open>NullLiteralType\<close>), and \<open>FunctionType\<close>, whose \<open>accepts\<close> and
  \<open>collectErrors\<close> read the annotation attached to a function value and call
  \<open>acceptsType\<close> on parameter nodes of classes defined elsewhere. What such a node
  does is supplied with the context below; it may throw and may change the store.

  A \<open>TypeParameter\<close> has a \<open>bound\<close>, fixed when the descriptor tree is built, and
  a mutable \<open>recorded\<close> descriptor. The bound stays in the tree; \<open>recorded\<close> lives in
  a store under the parameter's identity, so that every \<open>FlowIntoType\<close> relaying to
  the same parameter reads and writes the same slot.
\<close>

datatype 'x ty =
    Type
  | VoidType
  | SymbolLiteralType nat
  | ThisType val
  | NullableType "'x ty"
  | FlowIntoType "'x TypeParameter"
  | ContextType 'x
and 'x TypeParameter =
    TypeParameter nat "'x ty option"

type_synonym 'x store = "nat \<Rightarrow> 'x option"

type_synonym IdentifierPath = "string list"

text \<open>
  Modelled from the spec: the class \<open>Validation\<close> is not among the sources. The spec
  has a validation session accumulate ordered (path, type, message) records, to which the
  core only appends: a session is the list of the records
  \<open>addError(path, type, message)\<close> appended, oldest first.
\<close>

type_synonym 'x Validation = "(IdentifierPath \<times> 'x ty \<times> string) list"

definition addError :: "'x Validation \<Rightarrow> IdentifierPath \<Rightarrow> 'x ty \<Rightarrow> string \<Rightarrow> 'x Validation" where
  "addError validation path expected message = validation @ [(path, expected, message)]"

text \<open>A call yields the value returned or the error thrown, and the state afterwards.\<close>

type_synonym ('a, 's) result = "(error + 'a) \<times> 's"

text \<open>
  What the sources import from the rest of the package, taken as parameters:
  \<open>typeName\<close>, \<open>accepts\<close>, \<open>collectErrors\<close> of the other node classes, the test
  \<open>instanceof NullLiteralType\<close>, \<open>context.typeOf\<close>, \<open>context.union\<close>,
  \<open>compareTypes\<close>, \<open>getErrorMessage\<close> and a symbol's \<open>toString\<close>.
  The methods embedded here (\<open>accepts\<close> and \<open>collectErrors\<close> of
  \<open>FlowIntoType\<close>) store in \<open>recorded\<close> only what \<open>typeOf\<close> and \<open>union\<close>
  return, so the store holds descriptors of that kind. \<open>FlowIntoType.compareWith\<close>,
  which stores the node it is compared with, is not part of this development.
\<close>

record 'x TypeContext =
  typeName_x :: "'x \<Rightarrow> string"
  accepts_x :: "'x \<Rightarrow> val \<Rightarrow> 'x store \<Rightarrow> (bool, 'x store) result"
  collectErrors_x :: "'x \<Rightarrow> 'x Validation \<Rightarrow> IdentifierPath \<Rightarrow> val \<Rightarrow> 'x store \<Rightarrow>
                      (error + bool) \<times> 'x Validation \<times> 'x store"
  instanceof_NullLiteralType :: "'x \<Rightarrow> bool"
  typeOf :: "val \<Rightarrow> 'x"
  unionT :: "'x \<Rightarrow> 'x \<Rightarrow> 'x"
  compareTypes :: "'x ty \<Rightarrow> 'x ty \<Rightarrow> 'x store \<Rightarrow> (int, 'x store) result"
  getErrorMessage :: "string \<Rightarrow> string list \<Rightarrow> string"
  symbol_toString :: "nat \<Rightarrow> string"

fun typeName :: "'x TypeContext \<Rightarrow> 'x ty \<Rightarrow> string" where
  "typeName ctx Type = ''Type''"
| "typeName ctx VoidType = ''VoidType''"
| "typeName ctx (SymbolLiteralType _) = ''SymbolLiteralType''"
| "typeName ctx (ThisType _) = ''ThisType''"
| "typeName ctx (NullableType _) = ''NullableType''"
| "typeName ctx (FlowIntoType _) = ''FlowIntoType''"
| "typeName ctx (ContextType x) = typeName_x ctx x"

subsection \<open>VoidType, SymbolLiteralType, ThisType\<close>

definition VoidType_accepts :: "val \<Rightarrow> bool" where
  "VoidType_accepts input = strict_eq input VUndefined"

definition VoidType_compareWith :: "'x ty \<Rightarrow> int" where
  "VoidType_compareWith input = (case input of VoidType \<Rightarrow> 0 | _ \<Rightarrow> - 1)"

definition SymbolLiteralType_accepts :: "nat \<Rightarrow> val \<Rightarrow> bool" where
  "SymbolLiteralType_accepts value input = strict_eq input (VSym value)"

definition SymbolLiteralType_compareWith :: "nat \<Rightarrow> 'x ty \<Rightarrow> int" where
  "SymbolLiteralType_compareWith value input =
     (case input of
        SymbolLiteralType input_value \<Rightarrow> if strict_eq (VSym input_value) (VSym value) then 0 else - 1
      | _ \<Rightarrow> - 1)"

text \<open>\<open>ThisType.accepts\<close>. The second test is
  \<open>typeof recorded === 'function' && input instanceof recorded\<close>: \<open>instanceof\<close> is
  evaluated only for a function, and what it throws leaves the method.\<close>

definition ThisType_accepts :: "val \<Rightarrow> val \<Rightarrow> error + bool" where
  "ThisType_accepts recorded input =
     (if strict_eq input recorded then Inr True
      else
        (case (if typeof recorded = ''function'' then instanceof input recorded else Inr False) of
           Inl e \<Rightarrow> Inl e
         | Inr True \<Rightarrow> Inr True
         | Inr False \<Rightarrow> if \<not> eq_null recorded then Inr False else Inr True))"

definition ThisType_compareWith :: "val \<Rightarrow> 'x ty \<Rightarrow> int" where
  "ThisType_compareWith recorded input =
     (case input of
        ThisType input_recorded \<Rightarrow>
          if truthy input_recorded \<and> truthy recorded then
            (if strict_eq input_recorded recorded then 0 else - 1)
          else if truthy recorded then 0
          else 1
      | _ \<Rightarrow> - 1)"

subsection \<open>The base class\<close>

definition Type_accepts :: "val \<Rightarrow> error + bool" where
  "Type_accepts input = Inl NotImplemented"

definition Type_compareWith :: "'x ty \<Rightarrow> error + int" where
  "Type_compareWith input = Inl NotImplemented"

definition Type_collectErrors :: "'x Validation \<Rightarrow> IdentifierPath \<Rightarrow> val \<Rightarrow> bool \<times> 'x Validation" where
  "Type_collectErrors validation path input = (False, validation)"

subsection \<open>NullableType and FlowIntoType: \<open>accepts\<close>\<close>

text \<open>
  A method that calls \<open>accepts\<close> on another node takes that virtual call as its first
  argument \<open>call\<close>; the dispatch function \<open>accepts\<close> below passes itself.
\<close>

definition NullableType_accepts ::
  "('t \<Rightarrow> val \<Rightarrow> 's \<Rightarrow> (bool, 's) result) \<Rightarrow> 't \<Rightarrow> val \<Rightarrow> 's \<Rightarrow> (bool, 's) result" where
  "NullableType_accepts call type input s =
     (if eq_null input then (Inr True, s)
      else call type input s)"

text \<open>\<open>FlowIntoType.accepts\<close>, for the type parameter with identity \<open>a\<close> and bound
  \<open>bound\<close>. \<open>recorded\<close> and \<open>bound\<close> are read once, on entry;
  \<open>recorded.accepts(input)\<close> is a call on a descriptor of the context.\<close>

definition FlowIntoType_accepts ::
  "'x TypeContext \<Rightarrow> ('x ty \<Rightarrow> val \<Rightarrow> 'x store \<Rightarrow> (bool, 'x store) result) \<Rightarrow>
   nat \<Rightarrow> 'x ty option \<Rightarrow> val \<Rightarrow> 'x store \<Rightarrow> (bool, 'x store) result" where
  "FlowIntoType_accepts ctx call a bound input s =
     (let recorded = s a in
      case bound of
        Some (FlowIntoType tp) \<Rightarrow> call (FlowIntoType tp) input s
      | _ \<Rightarrow>
        (case recorded of
           Some r \<Rightarrow>
             (case (case bound of
                      None \<Rightarrow> (Inr True, s)
                    | Some b \<Rightarrow> call b input s) of
                (Inl e, s1) \<Rightarrow> (Inl e, s1)
              | (Inr False, s1) \<Rightarrow> (Inr False, s1)
              | (Inr True, s1) \<Rightarrow>
                  (case accepts_x ctx r input s1 of
                     (Inl e, s2) \<Rightarrow> (Inl e, s2)
                   | (Inr True, s2) \<Rightarrow> (Inr True, s2)
                   | (Inr False, s2) \<Rightarrow>
                       (Inr True, s2(a \<mapsto> unionT ctx r (typeOf ctx input)))))
         | None \<Rightarrow>
             (case bound of
                None \<Rightarrow> (Inr True, s(a \<mapsto> typeOf ctx input))
              | Some b \<Rightarrow>
                  if typeName ctx b = ''AnyType'' \<or> typeName ctx b = ''ExistentialType''
                  then (Inr True, s)
                  else (case call b input s of
                          (Inl e, s1) \<Rightarrow> (Inl e, s1)
                        | (Inr False, s1) \<Rightarrow> (Inr False, s1)
                        | (Inr True, s1) \<Rightarrow> (Inr True, s1(a \<mapsto> typeOf ctx input))))))"

lemma NullableType_accepts_cong [fundef_cong]:
  assumes "type = type'" "input = input'" "s = s'"
    and "\<And>i s0. call type' i s0 = call' type' i s0"
  shows "NullableType_accepts call type input s = NullableType_accepts call' type' input' s'"
  using assms by (simp add: NullableType_accepts_def)

lemma FlowIntoType_accepts_cong [fundef_cong]:
  assumes "ctx = ctx'" "a = a'" "bound = bound'" "input = input'" "s = s'"
    and "\<And>b i s0. bound' = Some b \<Longrightarrow> call b i s0 = call' b i s0"
  shows "FlowIntoType_accepts ctx call a bound input s =
         FlowIntoType_accepts ctx' call' a' bound' input' s'"
  using assms
  by (auto simp: FlowIntoType_accepts_def Let_def split: option.splits ty.splits)

subsection \<open>Dispatch of \<open>accepts\<close>\<close>

fun accepts :: "'x TypeContext \<Rightarrow> 'x ty \<Rightarrow> val \<Rightarrow> 'x store \<Rightarrow> (bool, 'x store) result" where
  "accepts ctx Type input s = (Type_accepts input, s)"
| "accepts ctx VoidType input s = (Inr (VoidType_accepts input), s)"
| "accepts ctx (SymbolLiteralType value) input s = (Inr (SymbolLiteralType_accepts value input), s)"
| "accepts ctx (ThisType recorded) input s = (ThisType_accepts recorded input, s)"
| "accepts ctx (ContextType x) input s = accepts_x ctx x input s"
| "accepts ctx (NullableType type) input s = NullableType_accepts (accepts ctx) type input s"
| "accepts ctx (FlowIntoType (TypeParameter a bound)) input s =
     FlowIntoType_accepts ctx (accepts ctx) a bound input s"

text \<open>Some value is accepted by \<open>A\<close> and rejected by \<open>B\<close>, in the store \<open>s\<close>.\<close>

definition separates :: "'x TypeContext \<Rightarrow> 'x store \<Rightarrow> 'x ty \<Rightarrow> 'x ty \<Rightarrow> bool" where
  "separates ctx s A B \<longleftrightarrow>
     (\<exists>v. fst (accepts ctx A v s) = Inr True \<and> fst (accepts ctx B v s) = Inr False)"

subsection \<open>\<open>collectErrors\<close>\<close>

text \<open>
  \<open>t.collectErrors(validation, path, input)\<close>: whether an error was recorded, or
  the error thrown, and the session and the store afterwards.
\<close>

definition VoidType_collectErrors ::
  "'x TypeContext \<Rightarrow> 'x Validation \<Rightarrow> IdentifierPath \<Rightarrow> val \<Rightarrow> bool \<times> 'x Validation" where
  "VoidType_collectErrors ctx validation path input =
     (if strict_eq input VUndefined then (False, validation)
      else (True, addError validation path VoidType (getErrorMessage ctx ''ERR_EXPECT_VOID'' [])))"

definition SymbolLiteralType_toString :: "'x TypeContext \<Rightarrow> nat \<Rightarrow> string" where
  "SymbolLiteralType_toString ctx value = ''typeof '' @ symbol_toString ctx value"

definition SymbolLiteralType_collectErrors ::
  "'x TypeContext \<Rightarrow> nat \<Rightarrow> 'x Validation \<Rightarrow> IdentifierPath \<Rightarrow> val \<Rightarrow> bool \<times> 'x Validation" where
  "SymbolLiteralType_collectErrors ctx value validation path input =
     (if strict_eq input (VSym value) then (False, validation)
      else (True, addError validation path (SymbolLiteralType value)
              (getErrorMessage ctx ''ERR_EXPECT_EXACT_VALUE'' [SymbolLiteralType_toString ctx value])))"

definition ThisType_collectErrors ::
  "'x TypeContext \<Rightarrow> val \<Rightarrow> 'x Validation \<Rightarrow> IdentifierPath \<Rightarrow> val \<Rightarrow> (error + bool) \<times> 'x Validation" where
  "ThisType_collectErrors ctx recorded validation path input =
     (if strict_eq input recorded then (Inr False, validation)
      else
        (case (if typeof recorded = ''function'' then instanceof input recorded else Inr False) of
           Inl e \<Rightarrow> (Inl e, validation)
         | Inr True \<Rightarrow> (Inr False, validation)
         | Inr False \<Rightarrow>
             if \<not> eq_null recorded then
               (Inr True, addError validation path (ThisType recorded)
                  (getErrorMessage ctx ''ERR_EXPECT_THIS'' []))
             else (Inr False, validation)))"

definition NullableType_collectErrors ::
  "('t \<Rightarrow> 'v \<Rightarrow> IdentifierPath \<Rightarrow> val \<Rightarrow> 's \<Rightarrow> (error + bool) \<times> 'v \<times> 's) \<Rightarrow>
   't \<Rightarrow> 'v \<Rightarrow> IdentifierPath \<Rightarrow> val \<Rightarrow> 's \<Rightarrow> (error + bool) \<times> 'v \<times> 's" where
  "NullableType_collectErrors call type validation path input s =
     (if eq_null input then (Inr False, validation, s)
      else call type validation path input s)"

definition FlowIntoType_collectErrors ::
  "'x TypeContext \<Rightarrow>
   ('x ty \<Rightarrow> 'x Validation \<Rightarrow> IdentifierPath \<Rightarrow> val \<Rightarrow> 'x store \<Rightarrow>
      (error + bool) \<times> 'x Validation \<times> 'x store) \<Rightarrow>
   nat \<Rightarrow> 'x ty option \<Rightarrow> 'x Validation \<Rightarrow> IdentifierPath \<Rightarrow> val \<Rightarrow> 'x store \<Rightarrow>
   (error + bool) \<times> 'x Validation \<times> 'x store" where
  "FlowIntoType_collectErrors ctx call a bound validation path input s =
     (let recorded = s a in
      case bound of
        Some (FlowIntoType tp) \<Rightarrow> call (FlowIntoType tp) validation path input s
      | _ \<Rightarrow>
        (case recorded of
           Some r \<Rightarrow>
             (case (case bound of
                      None \<Rightarrow> (Inr False, validation, s)
                    | Some b \<Rightarrow> call b validation path input s) of
                (Inl e, validation1, s1) \<Rightarrow> (Inl e, validation1, s1)
              | (Inr True, validation1, s1) \<Rightarrow> (Inr True, validation1, s1)
              | (Inr False, validation1, s1) \<Rightarrow>
                  (case accepts_x ctx r input s1 of
                     (Inl e, s2) \<Rightarrow> (Inl e, validation1, s2)
                   | (Inr True, s2) \<Rightarrow> (Inr False, validation1, s2)
                   | (Inr False, s2) \<Rightarrow>
                       (Inr False, validation1, s2(a \<mapsto> unionT ctx r (typeOf ctx input)))))
         | None \<Rightarrow>
             (case bound of
                None \<Rightarrow> (Inr False, validation, s(a \<mapsto> typeOf ctx input))
              | Some b \<Rightarrow>
                  if typeName ctx b = ''AnyType'' \<or> typeName ctx b = ''ExistentialType''
                  then (Inr False, validation, s)
                  else (case call b validation path input s of
                          (Inl e, validation1, s1) \<Rightarrow> (Inl e, validation1, s1)
                        | (Inr True, validation1, s1) \<Rightarrow> (Inr True, validation1, s1)
                        | (Inr False, validation1, s1) \<Rightarrow>
                            (Inr False, validation1, s1(a \<mapsto> typeOf ctx input))))))"

lemma NullableType_collectErrors_cong [fundef_cong]:
  assumes "type = type'" "validation = validation'" "path = path'" "input = input'" "s = s'"
    and "\<And>v p i s0. call type' v p i s0 = call' type' v p i s0"
  shows "NullableType_collectErrors call type validation path input s =
         NullableType_collectErrors call' type' validation' path' input' s'"
  using assms by (simp add: NullableType_collectErrors_def)

lemma FlowIntoType_collectErrors_cong [fundef_cong]:
  assumes "ctx = ctx'" "a = a'" "bound = bound'" "validation = validation'" "path = path'"
    and "input = input'" "s = s'"
    and "\<And>b v p i s0. bound' = Some b \<Longrightarrow> call b v p i s0 = call' b v p i s0"
  shows "FlowIntoType_collectErrors ctx call a bound validation path input s =
         FlowIntoType_collectErrors ctx' call' a' bound' validation' path' input' s'"
  using assms
  by (auto simp: FlowIntoType_collectErrors_def Let_def split: option.splits ty.splits)

fun collectErrors ::
  "'x TypeContext \<Rightarrow> 'x ty \<Rightarrow> 'x Validation \<Rightarrow> IdentifierPath \<Rightarrow> val \<Rightarrow> 'x store \<Rightarrow>
   (error + bool) \<times> 'x Validation \<times> 'x store" where
  "collectErrors ctx Type validation path input s =
     (Inr (fst (Type_collectErrors validation path input)),
      snd (Type_collectErrors validation path input), s)"
| "collectErrors ctx VoidType validation path input s =
     (Inr (fst (VoidType_collectErrors ctx validation path input)),
      snd (VoidType_collectErrors ctx validation path input), s)"
| "collectErrors ctx (SymbolLiteralType value) validation path input s =
     (Inr (fst (SymbolLiteralType_collectErrors ctx value validation path input)),
      snd (SymbolLiteralType_collectErrors ctx value validation path input), s)"
| "collectErrors ctx (ThisType recorded) validation path input s =
     (fst (ThisType_collectErrors ctx recorded validation path input),
      snd (ThisType_collectErrors ctx recorded validation path input), s)"
| "collectErrors ctx (ContextType x) validation path input s =
     collectErrors_x ctx x validation path input s"
| "collectErrors ctx (NullableType type) validation path input s =
     NullableType_collectErrors (collectErrors ctx) type validation path input s"
| "collectErrors ctx (FlowIntoType (TypeParameter a bound)) validation path input s =
     FlowIntoType_collectErrors ctx (collectErrors ctx) a bound validation path input s"

subsection \<open>\<open>acceptsType\<close> of the base class\<close>

text \<open>\<open>Type.acceptsType\<close>, with \<open>compareTypes\<close> the comparator it is given.\<close>

definition Type_acceptsType ::
  "('t \<Rightarrow> 't \<Rightarrow> 's \<Rightarrow> (int, 's) result) \<Rightarrow> 't \<Rightarrow> 't \<Rightarrow> 's \<Rightarrow> (bool, 's) result" where
  "Type_acceptsType compareTypes' this input s =
     (case compareTypes' this input s of
        (Inl e, s1) \<Rightarrow> (Inl e, s1)
      | (Inr r, s1) \<Rightarrow> if r = - 1 then (Inr False, s1) else (Inr True, s1))"

subsection \<open>\<open>NullableType.compareWith\<close>\<close>

definition is_NullLiteralType :: "'x TypeContext \<Rightarrow> 'x ty \<Rightarrow> bool" where
  "is_NullLiteralType ctx input =
     (case input of ContextType x \<Rightarrow> instanceof_NullLiteralType ctx x | _ \<Rightarrow> False)"

definition NullableType_compareWith ::
  "'x TypeContext \<Rightarrow> 'x ty \<Rightarrow> 'x ty \<Rightarrow> 'x store \<Rightarrow> (int, 'x store) result" where
  "NullableType_compareWith ctx type input s =
     (if is_NullLiteralType ctx input \<or> input = VoidType then (Inr 1, s)
      else case input of
        NullableType input_type \<Rightarrow> compareTypes ctx type input_type s
      | _ \<Rightarrow>
        (case compareTypes ctx type input s of
           (Inl e, s1) \<Rightarrow> (Inl e, s1)
         | (Inr result, s1) \<Rightarrow> if result = - 1 then (Inr (- 1), s1) else (Inr 1, s1)))"

section \<open>FunctionType\<close>

text \<open>
  A signature: its parameter nodes, its optional rest parameter and its return node. The
  classes of these nodes (\<open>FunctionTypeParam\<close>, \<open>FunctionTypeRestParam\<close>,
  \<open>FunctionTypeReturn\<close>) are defined elsewhere in the package, so the nodes are of an
  arbitrary type \<open>'n\<close> and the methods called on them (\<open>accepts\<close>, \<open>acceptsType\<close>,
  the field \<open>type\<close>), \<open>compareTypes\<close> and \<open>context.empty()\<close> are parameters. A
  call on a node may throw and may change the state \<open>'s\<close>.
\<close>

record 'n FunctionType =
  params :: "'n list"
  rest :: "'n option"
  returnType :: 'n

text \<open>The argument of \<open>compareWith\<close>: \<open>input instanceof FunctionType\<close> or not.\<close>

datatype 'n compared = FunctionTypeNode "'n FunctionType" | OtherNode 'n

subsection \<open>\<open>acceptsParams\<close>\<close>

text \<open>The first loop, from index \<open>i\<close>: \<open>Inr True\<close> when it runs to its end,
  \<open>Inr False\<close> when it returns false.\<close>

function acceptsParams_params ::
  "('n \<Rightarrow> val \<Rightarrow> 's \<Rightarrow> (bool, 's) result) \<Rightarrow> 'n list \<Rightarrow> val list \<Rightarrow> nat \<Rightarrow> 's \<Rightarrow> (bool, 's) result" where
  "acceptsParams_params accepts' ps args i s =
     (if i < length ps then
        (let param = ps ! i in
         if i < length args then
           (case accepts' param (args ! i) s of
              (Inl e, s1) \<Rightarrow> (Inl e, s1)
            | (Inr ok, s1) \<Rightarrow>
                if \<not> ok then (Inr False, s1)
                else acceptsParams_params accepts' ps args (Suc i) s1)
         else
           (case accepts' param VUndefined s of
              (Inl e, s1) \<Rightarrow> (Inl e, s1)
            | (Inr ok, s1) \<Rightarrow>
                if \<not> ok then (Inr False, s1)
                else acceptsParams_params accepts' ps args (Suc i) s1))
      else (Inr True, s))"
  by pat_completeness auto
termination
  by (relation "measure (\<lambda>(accepts', ps, args, i, s). length ps - i)") auto

declare acceptsParams_params.simps [simp del]

text \<open>The second loop, over the arguments from index \<open>i\<close> on.\<close>

function acceptsParams_rest ::
  "('n \<Rightarrow> val \<Rightarrow> 's \<Rightarrow> (bool, 's) result) \<Rightarrow> 'n \<Rightarrow> val list \<Rightarrow> nat \<Rightarrow> 's \<Rightarrow> (bool, 's) result" where
  "acceptsParams_rest accepts' r args i s =
     (if i < length args then
        (case accepts' r (args ! i) s of
           (Inl e, s1) \<Rightarrow> (Inl e, s1)
         | (Inr ok, s1) \<Rightarrow>
             if \<not> ok then (Inr False, s1)
             else acceptsParams_rest accepts' r args (Suc i) s1)
      else (Inr True, s))"
  by pat_completeness auto
termination
  by (relation "measure (\<lambda>(accepts', r, args, i, s). length args - i)") auto

declare acceptsParams_rest.simps [simp del]

definition FunctionType_acceptsParams ::
  "('n \<Rightarrow> val \<Rightarrow> 's \<Rightarrow> (bool, 's) result) \<Rightarrow> 'n FunctionType \<Rightarrow> val list \<Rightarrow> 's \<Rightarrow> (bool, 's) result" where
  "FunctionType_acceptsParams accepts' this args s =
     (let paramsLength = length (params this); argsLength = length args in
      case acceptsParams_params accepts' (params this) args 0 s of
        (Inl e, s1) \<Rightarrow> (Inl e, s1)
      | (Inr False, s1) \<Rightarrow> (Inr False, s1)
      | (Inr True, s1) \<Rightarrow>
          (case rest this of
             Some r \<Rightarrow>
               if argsLength > paramsLength then acceptsParams_rest accepts' r args paramsLength s1
               else (Inr True, s1)
           | None \<Rightarrow> (Inr True, s1)))"

subsection \<open>\<open>invoke\<close>\<close>

function invoke_params ::
  "('n \<Rightarrow> 'n \<Rightarrow> 's \<Rightarrow> (bool, 's) result) \<Rightarrow> ('n \<Rightarrow> val \<Rightarrow> 's \<Rightarrow> (bool, 's) result) \<Rightarrow>
   'n list \<Rightarrow> 'n list \<Rightarrow> nat \<Rightarrow> 's \<Rightarrow> (bool, 's) result" where
  "invoke_params acceptsType' accepts' ps args i s =
     (if i < length ps then
        (let param = ps ! i in
         if i < length args then
           (case acceptsType' param (args ! i) s of
              (Inl e, s1) \<Rightarrow> (Inl e, s1)
            | (Inr ok, s1) \<Rightarrow>
                if \<not> ok then (Inr False, s1)
                else invoke_params acceptsType' accepts' ps args (Suc i) s1)
         else
           (case accepts' param VUndefined s of
              (Inl e, s1) \<Rightarrow> (Inl e, s1)
            | (Inr ok, s1) \<Rightarrow>
                if \<not> ok then (Inr False, s1)
                else invoke_params acceptsType' accepts' ps args (Suc i) s1))
      else (Inr True, s))"
  by pat_completeness auto
termination
  by (relation "measure (\<lambda>(acceptsType', accepts', ps, args, i, s). length ps - i)") auto

declare invoke_params.simps [simp del]

function invoke_rest ::
  "('n \<Rightarrow> 'n \<Rightarrow> 's \<Rightarrow> (bool, 's) result) \<Rightarrow> 'n \<Rightarrow> 'n list \<Rightarrow> nat \<Rightarrow> 's \<Rightarrow> (bool, 's) result" where
  "invoke_rest acceptsType' r args i s =
     (if i < length args then
        (case acceptsType' r (args ! i) s of
           (Inl e, s1) \<Rightarrow> (Inl e, s1)
         | (Inr ok, s1) \<Rightarrow>
             if \<not> ok then (Inr False, s1)
             else invoke_rest acceptsType' r args (Suc i) s1)
      else (Inr True, s))"
  by pat_completeness auto
termination
  by (relation "measure (\<lambda>(acceptsType', r, args, i, s). length args - i)") auto

declare invoke_rest.simps [simp del]

text \<open>\<open>invoke\<close> returns \<open>empty'\<close> (that is \<open>context.empty()\<close>) where a loop returns it,
  and \<open>this.returnType.type\<close> (the field read by \<open>type_of\<close>) at the end.\<close>

definition FunctionType_invoke ::
  "('n \<Rightarrow> 'n \<Rightarrow> 's \<Rightarrow> (bool, 's) result) \<Rightarrow> ('n \<Rightarrow> val \<Rightarrow> 's \<Rightarrow> (bool, 's) result) \<Rightarrow>
   ('n \<Rightarrow> 'n) \<Rightarrow> 'n \<Rightarrow> 'n FunctionType \<Rightarrow> 'n list \<Rightarrow> 's \<Rightarrow> ('n, 's) result" where
  "FunctionType_invoke acceptsType' accepts' type_of empty' this args s =
     (let paramsLength = length (params this); argsLength = length args in
      case invoke_params acceptsType' accepts' (params this) args 0 s of
        (Inl e, s1) \<Rightarrow> (Inl e, s1)
      | (Inr False, s1) \<Rightarrow> (Inr empty', s1)
      | (Inr True, s1) \<Rightarrow>
          (case rest this of
             Some r \<Rightarrow>
               if argsLength > paramsLength then
                 (case invoke_rest acceptsType' r args paramsLength s1 of
                    (Inl e, s2) \<Rightarrow> (Inl e, s2)
                  | (Inr False, s2) \<Rightarrow> (Inr empty', s2)
                  | (Inr True, s2) \<Rightarrow> (Inr (type_of (returnType this)), s2))
               else (Inr (type_of (returnType this)), s1)
           | None \<Rightarrow> (Inr (type_of (returnType this)), s1)))"

subsection \<open>\<open>compareWith\<close>\<close>

text \<open>The loop over the parameters, from index \<open>i\<close>, with the flag \<open>isGreater\<close>; it
  runs only when \<open>inputParams\<close> is at least as long as \<open>params\<close>.\<close>

function compareWith_params ::
  "('n \<Rightarrow> 'n \<Rightarrow> 's \<Rightarrow> (int, 's) result) \<Rightarrow> 'n list \<Rightarrow> 'n list \<Rightarrow> nat \<Rightarrow> bool \<Rightarrow> 's \<Rightarrow> (int, 's) result" where
  "compareWith_params compareTypes' ps inputParams i isGreater s =
     (if i < length ps then
        (let param = ps ! i; inputParam = inputParams ! i in
         case compareTypes' param inputParam s of
           (Inl e, s1) \<Rightarrow> (Inl e, s1)
         | (Inr result, s1) \<Rightarrow>
             if result = - 1 then (Inr (- 1), s1)
             else if result = 1 then compareWith_params compareTypes' ps inputParams (Suc i) True s1
             else compareWith_params compareTypes' ps inputParams (Suc i) isGreater s1)
      else (Inr (if isGreater then 1 else 0), s))"
  by pat_completeness auto
termination
  by (relation "measure (\<lambda>(compareTypes', ps, inputParams, i, isGreater, s). length ps - i)") auto

declare compareWith_params.simps [simp del]

definition FunctionType_compareWith ::
  "('n \<Rightarrow> 'n \<Rightarrow> 's \<Rightarrow> (int, 's) result) \<Rightarrow> 'n FunctionType \<Rightarrow> 'n compared \<Rightarrow> 's \<Rightarrow> (int, 's) result" where
  "FunctionType_compareWith compareTypes' this input s =
     (case input of
        OtherNode _ \<Rightarrow> (Inr (- 1), s)
      | FunctionTypeNode inp \<Rightarrow>
          (case compareTypes' (returnType this) (returnType inp) s of
             (Inl e, s1) \<Rightarrow> (Inl e, s1)
           | (Inr returnTypeResult, s1) \<Rightarrow>
               if returnTypeResult = - 1 then (Inr (- 1), s1)
               else
                 (let isGreater = (returnTypeResult = 1) in
                  if length (params inp) < length (params this) then (Inr (- 1), s1)
                  else compareWith_params compareTypes' (params this) (params inp) 0 isGreater s1)))"

section \<open>Dispatch among candidate signatures\<close>





section \<open>A concrete context\<close>

text \<open>
  A small context on which the definitions can be run: its descriptors are \<open>any\<close>,
  the primitive types of strings, numbers and booleans, the null literal, and unions of
  these, and \<open>empty\<close>. It only serves to evaluate the definitions on concrete inputs.
\<close>

datatype prim =
  AnyType | EmptyType | StringType | NumberType | BooleanType | NullLiteralType | UnionType prim prim

fun prim_typeName :: "prim \<Rightarrow> string" where
  "prim_typeName AnyType = ''AnyType''"
| "prim_typeName EmptyType = ''EmptyType''"
| "prim_typeName StringType = ''StringType''"
| "prim_typeName NumberType = ''NumberType''"
| "prim_typeName BooleanType = ''BooleanType''"
| "prim_typeName NullLiteralType = ''NullLiteralType''"
| "prim_typeName (UnionType _ _) = ''UnionType''"

fun prim_accepts :: "prim \<Rightarrow> val \<Rightarrow> bool" where
  "prim_accepts AnyType input = True"
| "prim_accepts EmptyType input = False"
| "prim_accepts StringType input = (typeof input = ''string'')"
| "prim_accepts NumberType input = (typeof input = ''number'')"
| "prim_accepts BooleanType input = (typeof input = ''boolean'')"
| "prim_accepts NullLiteralType input = strict_eq input VNull"
| "prim_accepts (UnionType a b) input = (prim_accepts a input \<or> prim_accepts b input)"

text \<open>Calls on \<open>prim\<close> nodes: they neither throw nor touch the state.\<close>

definition prim_accepts_call :: "prim \<Rightarrow> val \<Rightarrow> 's \<Rightarrow> (bool, 's) result" where
  "prim_accepts_call x input s = (Inr (prim_accepts x input), s)"

definition prim_collectErrors ::
  "prim \<Rightarrow> prim Validation \<Rightarrow> IdentifierPath \<Rightarrow> val \<Rightarrow> prim store \<Rightarrow>
   (error + bool) \<times> prim Validation \<times> prim store" where
  "prim_collectErrors x validation path input s =
     (if prim_accepts x input then (Inr False, validation, s)
      else (Inr True, addError validation path (ContextType x) (''ERR_EXPECT '' @ prim_typeName x), s))"

fun prim_typeOf :: "val \<Rightarrow> prim" where
  "prim_typeOf (VStr _) = StringType"
| "prim_typeOf (VNum _) = NumberType"
| "prim_typeOf VNaN = NumberType"
| "prim_typeOf (VBool _) = BooleanType"
| "prim_typeOf VNull = NullLiteralType"
| "prim_typeOf _ = AnyType"

definition prim_compareTypes :: "prim ty \<Rightarrow> prim ty \<Rightarrow> prim store \<Rightarrow> (int, prim store) result" where
  "prim_compareTypes a b s =
     (if a = Type then (Inl NotImplemented, s)
      else if a = b then (Inr 0, s)
      else if a = ContextType AnyType then (Inr 1, s)
      else (Inr (- 1), s))"

definition prim_context :: "prim TypeContext" where
  "prim_context =
     \<lparr> typeName_x = prim_typeName,
       accepts_x = prim_accepts_call,
       collectErrors_x = prim_collectErrors,
       instanceof_NullLiteralType = (\<lambda>x. x = NullLiteralType),
       typeOf = prim_typeOf,
       unionT = UnionType,
       compareTypes = prim_compareTypes,
       getErrorMessage = (\<lambda>key args. key),
       symbol_toString = (\<lambda>n. ''Symbol()'') \<rparr>"

definition prim_compare :: "prim \<Rightarrow> prim \<Rightarrow> int" where
  "prim_compare a b = (if a = b then 0 else if a = AnyType then 1 else - 1)"

definition prim_compare_call :: "prim \<Rightarrow> prim \<Rightarrow> 's \<Rightarrow> (int, 's) result" where
  "prim_compare_call a b s = (Inr (prim_compare a b), s)"

section \<open>Properties\<close>

subsection \<open>NullableType\<close>

text \<open>
  Claim C6. For every type \<open>T\<close>, \<open>NullableType(T).accepts\<close> returns true on the
  missing value, both \<open>undefined\<close> and \<open>null\<close>, and leaves the store alone; on any
  other input it does exactly what \<open>T.accepts\<close> does (same result or error, same
  store).
\<close>

theorem NullableType_accepts_missing_or_inner:
  "accepts ctx (NullableType T) VUndefined s = (Inr True, s) \<and>
   accepts ctx (NullableType T) VNull s = (Inr True, s) \<and>
   (input \<noteq> VUndefined \<and> input \<noteq> VNull \<longrightarrow>
      accepts ctx (NullableType T) input s = accepts ctx T input s)"
  by (simp add: NullableType_accepts_def eq_null_def)

theorem NullableType_accepts_missing_or_inner_witness:
  "accepts prim_context (NullableType (SymbolLiteralType 7)) VUndefined Map.empty = (Inr True, Map.empty) \<and>
   accepts prim_context (NullableType (SymbolLiteralType 7)) VNull Map.empty = (Inr True, Map.empty) \<and>
   accepts prim_context (NullableType (SymbolLiteralType 7)) (VSym 7) Map.empty = (Inr True, Map.empty) \<and>
   accepts prim_context (NullableType (SymbolLiteralType 7)) (VSym 8) Map.empty = (Inr False, Map.empty) \<and>
   accepts prim_context (NullableType Type) (VSym 8) Map.empty = (Inl NotImplemented, Map.empty)"
  using NullableType_accepts_missing_or_inner [of prim_context "SymbolLiteralType 7" Map.empty "VSym 7"]
    NullableType_accepts_missing_or_inner [of prim_context "SymbolLiteralType 7" Map.empty "VSym 8"]
    NullableType_accepts_missing_or_inner [of prim_context Type Map.empty "VSym 8"]
  by (simp add: SymbolLiteralType_accepts_def strict_eq_def Type_accepts_def)

text \<open>
  Claim C7. \<open>NullableType(T).compareWith(U)\<close>, for \<open>U\<close> neither a \<open>NullableType\<close>
  nor a \<open>NullLiteralType\<close> nor a \<open>VoidType\<close>, returns \<open>-1\<close> when
  \<open>compareTypes(T, U)\<close> is \<open>-1\<close> and \<open>1\<close> otherwise: a non-negative inner result
  is reported as \<open>1\<close>, never \<open>0\<close>.
\<close>

theorem NullableType_compareWith_other:
  "\<not> is_NullLiteralType ctx U \<Longrightarrow> U \<noteq> VoidType \<Longrightarrow> (\<forall>V. U \<noteq> NullableType V) \<Longrightarrow>
   compareTypes ctx T U s = (Inr r, s1) \<Longrightarrow>
   NullableType_compareWith ctx T U s = (Inr (if r = - 1 then - 1 else 1), s1)"
  by (cases U) (simp_all add: NullableType_compareWith_def)

theorem NullableType_compareWith_other_witness:
  "NullableType_compareWith prim_context (SymbolLiteralType 1) (SymbolLiteralType 1) Map.empty = (Inr 1, Map.empty) \<and>
   NullableType_compareWith prim_context (SymbolLiteralType 1) (SymbolLiteralType 2) Map.empty = (Inr (- 1), Map.empty) \<and>
   NullableType_compareWith prim_context (ContextType AnyType) (SymbolLiteralType 2) Map.empty = (Inr 1, Map.empty)"
  using NullableType_compareWith_other [of prim_context "SymbolLiteralType 1" "SymbolLiteralType 1" Map.empty 0 Map.empty]
    NullableType_compareWith_other [of prim_context "SymbolLiteralType 2" "SymbolLiteralType 1" Map.empty "- 1" Map.empty]
    NullableType_compareWith_other [of prim_context "SymbolLiteralType 2" "ContextType AnyType" Map.empty 1 Map.empty]
  by (simp add: prim_context_def prim_compareTypes_def is_NullLiteralType_def)

subsection \<open>The base class\<close>

text \<open>
  Claim C8. For every pair of nodes \<open>A\<close> and \<open>B\<close>, \<open>A.acceptsType(B)\<close> returns false
  exactly when comparing \<open>A\<close> with \<open>B\<close> yields \<open>-1\<close>, and true when the comparison
  yields \<open>0\<close> or \<open>1\<close>.
\<close>

theorem acceptsType_false_iff_minus_one:
  "compareTypes' A B s = (Inr r, s1) \<Longrightarrow>
   Type_acceptsType compareTypes' A B s = (Inr (r \<noteq> - 1), s1)"
  by (simp add: Type_acceptsType_def)

theorem acceptsType_false_iff_minus_one_witness:
  "Type_acceptsType prim_compareTypes VoidType (ContextType AnyType) Map.empty = (Inr False, Map.empty) \<and>
   Type_acceptsType prim_compareTypes VoidType VoidType Map.empty = (Inr True, Map.empty) \<and>
   Type_acceptsType prim_compareTypes (ContextType AnyType) VoidType Map.empty = (Inr True, Map.empty)"
  using acceptsType_false_iff_minus_one [of prim_compareTypes VoidType "ContextType AnyType" Map.empty "- 1" Map.empty]
    acceptsType_false_iff_minus_one [of prim_compareTypes VoidType VoidType Map.empty 0 Map.empty]
    acceptsType_false_iff_minus_one [of prim_compareTypes "ContextType AnyType" VoidType Map.empty 1 Map.empty]
  by (simp add: prim_compareTypes_def)


text \<open>
  Claim C10. The base class's \<open>collectErrors\<close> returns false and records no error for
  every input, whereas its \<open>accepts\<close> and \<open>compareWith\<close> throw; so a node of a
  class that overrides \<open>accepts\<close> and inherits \<open>collectErrors\<close> reports no error
  for a value its \<open>accepts\<close> rejects.
\<close>

theorem base_collectErrors_silent:
  "Type_collectErrors validation path input = (False, validation) \<and>
   collectErrors ctx Type validation path input s = (Inr False, validation, s) \<and>
   Type_accepts input = Inl NotImplemented \<and>
   accepts ctx Type input s = (Inl NotImplemented, s) \<and>
   Type_compareWith other = Inl NotImplemented \<and>
   ((\<forall>v p i t. collectErrors_x ctx x v p i t =
        (Inr (fst (Type_collectErrors v p i)), snd (Type_collectErrors v p i), t)) \<and>
    accepts_x ctx x input s = (Inr False, sa) \<longrightarrow>
      accepts ctx (ContextType x) input s = (Inr False, sa) \<and>
      collectErrors ctx (ContextType x) validation path input s = (Inr False, validation, s))"
  by (simp add: Type_collectErrors_def Type_accepts_def Type_compareWith_def)

theorem base_collectErrors_silent_witness:
  "accepts (prim_context\<lparr>collectErrors_x := \<lambda>x v p i t. (Inr False, v, t)\<rparr>)
      (ContextType StringType) (VNum 1) Map.empty
     = (Inr False, Map.empty) \<and>
   collectErrors (prim_context\<lparr>collectErrors_x := \<lambda>x v p i t. (Inr False, v, t)\<rparr>)
      (ContextType StringType) [] [] (VNum 1) Map.empty
     = (Inr False, [], Map.empty)"
  using base_collectErrors_silent [of "[]" "[]" "VNum 1"
      "prim_context\<lparr>collectErrors_x := \<lambda>x v p i t. (Inr False, v, t)\<rparr>"
      Map.empty VoidType StringType Map.empty]
  by (simp add: prim_context_def prim_accepts_call_def Type_collectErrors_def)

subsection \<open>FunctionType\<close>

text \<open>Ranges of indices, one step at a time and as lists.\<close>

lemma ex_from_split:
  "(\<exists>j. i \<le> j \<and> j < n \<and> P j) \<longleftrightarrow> (i < n \<and> P i) \<or> (\<exists>j. Suc i \<le> j \<and> j < n \<and> P j)"
  by (metis Suc_leD Suc_le_eq le_less order_refl)

lemma all_from_split:
  "(\<forall>j. i \<le> j \<and> j < n \<longrightarrow> P j) \<longleftrightarrow> (i < n \<longrightarrow> P i) \<and> (\<forall>j. Suc i \<le> j \<and> j < n \<longrightarrow> P j)"
  by (metis Suc_leD Suc_le_eq le_less order_refl)

lemma all_below_list_all: "(\<forall>i<n. P i) = list_all P [0..<n]"
  by (auto simp: list_all_iff)

lemma all_from_list_all:
  "(\<forall>i. n \<le> i \<and> i < length xs \<longrightarrow> Q (xs ! i)) = list_all Q (drop n xs)"
proof -
  have "(\<forall>i. n \<le> i \<and> i < length xs \<longrightarrow> Q (xs ! i)) \<longleftrightarrow> (\<forall>k<length xs - n. Q (xs ! (n + k)))"
  proof (intro iffI allI impI)
    fix k assume a: "\<forall>i. n \<le> i \<and> i < length xs \<longrightarrow> Q (xs ! i)" and "k < length xs - n"
    then show "Q (xs ! (n + k))" by simp
  next
    fix i assume a: "\<forall>k<length xs - n. Q (xs ! (n + k))" and b: "n \<le> i \<and> i < length xs"
    then have "i - n < length xs - n" by linarith
    with a have "Q (xs ! (n + (i - n)))" by blast
    with b show "Q (xs ! i)" by simp
  qed
  then show ?thesis by (simp add: list_all_length)
qed

text \<open>The parameter loop of \<open>compareWith\<close>.\<close>

lemma compareWith_params_verdict:
  assumes verdict: "\<forall>a b s. fst (cmp a b s) = Inr (c a b)"
  shows "fst (compareWith_params cmp ps qs i g s) =
         Inr (if \<exists>j. i \<le> j \<and> j < length ps \<and> c (ps ! j) (qs ! j) = - 1 then - 1
              else if g \<or> (\<exists>j. i \<le> j \<and> j < length ps \<and> c (ps ! j) (qs ! j) = 1) then 1
              else 0)"
proof (induction "length ps - i" arbitrary: i g s)
  case 0
  then have "\<not> i < length ps" by simp
  then show ?case
    by (subst compareWith_params.simps) auto
next
  case (Suc k)
  then have lt: "i < length ps" and k: "k = length ps - Suc i" by simp_all
  define r where "r = c (ps ! i) (qs ! i)"
  define Em where "Em m \<longleftrightarrow> (\<exists>j. m \<le> j \<and> j < length ps \<and> c (ps ! j) (qs ! j) = - 1)" for m
  define Ep where "Ep m \<longleftrightarrow> (\<exists>j. m \<le> j \<and> j < length ps \<and> c (ps ! j) (qs ! j) = 1)" for m
  obtain s1 where call: "cmp (ps ! i) (qs ! i) s = (Inr r, s1)"
    using verdict unfolding r_def by (metis prod.collapse)
  have Em: "Em i \<longleftrightarrow> r = - 1 \<or> Em (Suc i)"
    unfolding Em_def r_def using lt by (subst ex_from_split) simp
  have Ep: "Ep i \<longleftrightarrow> r = 1 \<or> Ep (Suc i)"
    unfolding Ep_def r_def using lt by (subst ex_from_split) simp
  have IH: "fst (compareWith_params cmp ps qs (Suc i) g' s1) =
            Inr (if Em (Suc i) then - 1 else if g' \<or> Ep (Suc i) then 1 else 0)" for g'
    unfolding Em_def Ep_def by (rule Suc.hyps(1) [OF k])
  have step: "fst (compareWith_params cmp ps qs i g s) =
     (if r = - 1 then Inr (- 1)
      else if r = 1 then fst (compareWith_params cmp ps qs (Suc i) True s1)
      else fst (compareWith_params cmp ps qs (Suc i) g s1))"
    using lt call by (subst compareWith_params.simps) (simp add: Let_def)
  have "fst (compareWith_params cmp ps qs i g s) =
        Inr (if Em i then - 1 else if g \<or> Ep i then 1 else 0)"
    unfolding step IH Em Ep by simp
  then show ?case unfolding Em_def Ep_def .
qed

text \<open>
  Claim C5. \<open>FunctionType.compareWith\<close> yields \<open>-1\<close> for an input that is not a
  \<open>FunctionType\<close>. Otherwise it compares the return types first, and a \<open>-1\<close> there
  yields \<open>-1\<close>; it yields \<open>-1\<close> when the input declares fewer parameters than this
  signature; otherwise it compares the parameters by position and yields \<open>-1\<close> if one of
  these comparisons is \<open>-1\<close>, \<open>1\<close> if a comparison (return or parameter) is \<open>1\<close>
  and none is \<open>-1\<close>, and \<open>0\<close> otherwise. Here \<open>c a b\<close> is what comparing \<open>a\<close>
  with \<open>b\<close> yields.
\<close>

theorem FunctionType_compareWith_rules:
  assumes "\<forall>a b s. fst (cmp a b s) = Inr (c a b)"
  shows "fst (FunctionType_compareWith cmp this input s) =
    Inr (case input of
           OtherNode _ \<Rightarrow> - 1
         | FunctionTypeNode inp \<Rightarrow>
             if c (returnType this) (returnType inp) = - 1 then - 1
             else if length (params inp) < length (params this) then - 1
             else if \<exists>i<length (params this). c (params this ! i) (params inp ! i) = - 1 then - 1
             else if c (returnType this) (returnType inp) = 1
                     \<or> (\<exists>i<length (params this). c (params this ! i) (params inp ! i) = 1) then 1
             else 0)"
proof (cases input)
  case (OtherNode x)
  then show ?thesis by (simp add: FunctionType_compareWith_def)
next
  case (FunctionTypeNode inp)
  define r where "r = c (returnType this) (returnType inp)"
  obtain s1 where call: "cmp (returnType this) (returnType inp) s = (Inr r, s1)"
    using assms unfolding r_def by (metis prod.collapse)
  define Em where "Em \<longleftrightarrow> (\<exists>i<length (params this). c (params this ! i) (params inp ! i) = - 1)"
  define Ep where "Ep \<longleftrightarrow> (\<exists>i<length (params this). c (params this ! i) (params inp ! i) = 1)"
  have loop: "fst (compareWith_params cmp (params this) (params inp) 0 g s1) =
      Inr (if Em then - 1 else if g \<or> Ep then 1 else 0)" for g
    unfolding Em_def Ep_def
    using compareWith_params_verdict [OF assms, of "params this" "params inp" 0 g s1] by simp
  have body: "fst (FunctionType_compareWith cmp this input s) =
     (if r = - 1 then Inr (- 1)
      else if length (params inp) < length (params this) then Inr (- 1)
      else fst (compareWith_params cmp (params this) (params inp) 0 (r = 1) s1))"
    using FunctionTypeNode call by (simp add: FunctionType_compareWith_def Let_def)
  have "fst (FunctionType_compareWith cmp this input s) =
     Inr (if r = - 1 then - 1
          else if length (params inp) < length (params this) then - 1
          else if Em then - 1 else if r = 1 \<or> Ep then 1 else 0)"
    unfolding body loop by simp
  then show ?thesis
    unfolding Em_def Ep_def r_def FunctionTypeNode by simp
qed

theorem FunctionType_compareWith_rules_witness:
  "fst (FunctionType_compareWith prim_compare_call
      \<lparr> params = [StringType], rest = None, returnType = StringType \<rparr>
      (FunctionTypeNode \<lparr> params = [StringType, NumberType], rest = None, returnType = StringType \<rparr>)
      ()) = Inr 0 \<and>
   fst (FunctionType_compareWith prim_compare_call
      \<lparr> params = [AnyType], rest = None, returnType = StringType \<rparr>
      (FunctionTypeNode \<lparr> params = [StringType], rest = None, returnType = StringType \<rparr>)
      ()) = Inr 1 \<and>
   fst (FunctionType_compareWith prim_compare_call
      \<lparr> params = [StringType, NumberType], rest = None, returnType = StringType \<rparr>
      (FunctionTypeNode \<lparr> params = [StringType], rest = None, returnType = StringType \<rparr>)
      ()) = Inr (- 1) \<and>
   fst (FunctionType_compareWith prim_compare_call
      \<lparr> params = [], rest = None, returnType = StringType \<rparr>
      (OtherNode BooleanType) ()) = Inr (- 1)"
proof -
  have h: "\<forall>a b (s :: unit). fst (prim_compare_call a b s) = Inr (prim_compare a b)"
    by (simp add: prim_compare_call_def)
  show ?thesis
    using FunctionType_compareWith_rules [OF h,
        of "\<lparr> params = [StringType], rest = None, returnType = StringType \<rparr>"
           "FunctionTypeNode \<lparr> params = [StringType, NumberType], rest = None, returnType = StringType \<rparr>" "()"]
      FunctionType_compareWith_rules [OF h,
        of "\<lparr> params = [AnyType], rest = None, returnType = StringType \<rparr>"
           "FunctionTypeNode \<lparr> params = [StringType], rest = None, returnType = StringType \<rparr>" "()"]
      FunctionType_compareWith_rules [OF h,
        of "\<lparr> params = [StringType, NumberType], rest = None, returnType = StringType \<rparr>"
           "FunctionTypeNode \<lparr> params = [StringType], rest = None, returnType = StringType \<rparr>" "()"]
      FunctionType_compareWith_rules [OF h,
        of "\<lparr> params = [], rest = None, returnType = StringType \<rparr>" "OtherNode BooleanType" "()"]
    by (simp add: prim_compare_def)
qed

text \<open>The loops of \<open>acceptsParams\<close> and \<open>invoke\<close>.\<close>

lemma acceptsParams_params_take:
  "acceptsParams_params acc ps (take (length ps) args) i s = acceptsParams_params acc ps args i s"
proof (induction "length ps - i" arbitrary: i s)
  case 0
  then have "\<not> i < length ps" by simp
  then show ?case
    unfolding acceptsParams_params.simps [of acc ps args i s]
      acceptsParams_params.simps [of acc ps "take (length ps) args" i s]
    by simp
next
  case (Suc k)
  then have lt: "i < length ps" and k: "k = length ps - Suc i" by simp_all
  note IH = Suc.hyps(1) [OF k]
  show ?case
    unfolding acceptsParams_params.simps [of acc ps args i s]
      acceptsParams_params.simps [of acc ps "take (length ps) args" i s]
    using lt by (simp add: Let_def IH split: prod.splits sum.splits)
qed

lemma invoke_params_take:
  "invoke_params act acc ps (take (length ps) args) i s = invoke_params act acc ps args i s"
proof (induction "length ps - i" arbitrary: i s)
  case 0
  then have "\<not> i < length ps" by simp
  then show ?case
    unfolding invoke_params.simps [of act acc ps args i s]
      invoke_params.simps [of act acc ps "take (length ps) args" i s]
    by simp
next
  case (Suc k)
  then have lt: "i < length ps" and k: "k = length ps - Suc i" by simp_all
  note IH = Suc.hyps(1) [OF k]
  show ?case
    unfolding invoke_params.simps [of act acc ps args i s]
      invoke_params.simps [of act acc ps "take (length ps) args" i s]
    using lt by (simp add: Let_def IH split: prod.splits sum.splits)
qed

lemma acceptsParams_params_verdict:
  assumes verdict: "\<forall>p v s. fst (acc p v s) = Inr (a p v)"
  shows "fst (acceptsParams_params acc ps args i s) =
         Inr (\<forall>j. i \<le> j \<and> j < length ps \<longrightarrow> a (ps ! j) (element args j))"
proof (induction "length ps - i" arbitrary: i s)
  case 0
  then have "\<not> i < length ps" by simp
  then show ?case
    by (subst acceptsParams_params.simps) auto
next
  case (Suc k)
  then have lt: "i < length ps" and k: "k = length ps - Suc i" by simp_all
  define A where "A m \<longleftrightarrow> (\<forall>j. m \<le> j \<and> j < length ps \<longrightarrow> a (ps ! j) (element args j))" for m
  obtain s1 where call: "acc (ps ! i) (element args i) s = (Inr (a (ps ! i) (element args i)), s1)"
    using verdict by (metis prod.collapse)
  have A: "A i \<longleftrightarrow> a (ps ! i) (element args i) \<and> A (Suc i)"
    unfolding A_def using lt by (subst all_from_split) simp
  have IH: "fst (acceptsParams_params acc ps args (Suc i) s1) = Inr (A (Suc i))"
    unfolding A_def by (rule Suc.hyps(1) [OF k])
  have step: "fst (acceptsParams_params acc ps args i s) =
     (if \<not> a (ps ! i) (element args i) then Inr False
      else fst (acceptsParams_params acc ps args (Suc i) s1))"
    unfolding acceptsParams_params.simps [of acc ps args i s]
    using lt call by (cases "i < length args") (simp_all add: Let_def element_def)
  have "fst (acceptsParams_params acc ps args i s) = Inr (A i)"
    unfolding step IH A by simp
  then show ?case unfolding A_def .
qed

lemma acceptsParams_rest_verdict:
  assumes verdict: "\<forall>p v s. fst (acc p v s) = Inr (a p v)"
  shows "fst (acceptsParams_rest acc r args i s) =
         Inr (\<forall>j. i \<le> j \<and> j < length args \<longrightarrow> a r (args ! j))"
proof (induction "length args - i" arbitrary: i s)
  case 0
  then have "\<not> i < length args" by simp
  then show ?case
    by (subst acceptsParams_rest.simps) auto
next
  case (Suc k)
  then have lt: "i < length args" and k: "k = length args - Suc i" by simp_all
  define A where "A m \<longleftrightarrow> (\<forall>j. m \<le> j \<and> j < length args \<longrightarrow> a r (args ! j))" for m
  obtain s1 where call: "acc r (args ! i) s = (Inr (a r (args ! i)), s1)"
    using verdict by (metis prod.collapse)
  have A: "A i \<longleftrightarrow> a r (args ! i) \<and> A (Suc i)"
    unfolding A_def using lt by (subst all_from_split) simp
  have IH: "fst (acceptsParams_rest acc r args (Suc i) s1) = Inr (A (Suc i))"
    unfolding A_def by (rule Suc.hyps(1) [OF k])
  have step: "fst (acceptsParams_rest acc r args i s) =
     (if \<not> a r (args ! i) then Inr False
      else fst (acceptsParams_rest acc r args (Suc i) s1))"
    using lt call by (subst acceptsParams_rest.simps) simp
  have "fst (acceptsParams_rest acc r args i s) = Inr (A i)"
    unfolding step IH A by simp
  then show ?case unfolding A_def .
qed

text \<open>
  Claim C1, amended. A \<open>FunctionType\<close> with no rest parameter ignores the arguments
  beyond its declared parameters: \<open>acceptsParams\<close> and \<open>invoke\<close> do on an argument
  list what they do on its first \<open>params.length\<close> arguments. With or without a rest
  parameter, \<open>acceptsParams\<close> accepts exactly when every declared parameter accepts its
  argument (\<open>undefined\<close> for an absent one) and, if there is a rest parameter, it
  accepts every excess argument. Here \<open>a p v\<close> is what \<open>p.accepts(v)\<close> returns.
\<close>

theorem acceptsParams_excess_arguments:
  "(rest this = None \<longrightarrow>
      FunctionType_acceptsParams acc this args s =
        FunctionType_acceptsParams acc this (take (length (params this)) args) s \<and>
      FunctionType_invoke act acc type_of empty' this targs s =
        FunctionType_invoke act acc type_of empty' this (take (length (params this)) targs) s) \<and>
   ((\<forall>p v s. fst (acc p v s) = Inr (a p v)) \<longrightarrow>
      fst (FunctionType_acceptsParams acc this args s) =
        Inr ((\<forall>i<length (params this). a (params this ! i) (element args i)) \<and>
             (\<forall>r. rest this = Some r \<longrightarrow>
                (\<forall>i. length (params this) \<le> i \<and> i < length args \<longrightarrow> a r (args ! i)))))"
proof (intro conjI impI)
  assume "rest this = None"
  then show "FunctionType_acceptsParams acc this args s =
        FunctionType_acceptsParams acc this (take (length (params this)) args) s"
    by (simp add: FunctionType_acceptsParams_def acceptsParams_params_take Let_def
        split: prod.splits sum.splits bool.splits)
next
  assume "rest this = None"
  then show "FunctionType_invoke act acc type_of empty' this targs s =
        FunctionType_invoke act acc type_of empty' this (take (length (params this)) targs) s"
    by (simp add: FunctionType_invoke_def invoke_params_take Let_def
        split: prod.splits sum.splits bool.splits)
next
  assume verdict: "\<forall>p v s. fst (acc p v s) = Inr (a p v)"
  define P where "P \<longleftrightarrow> (\<forall>i<length (params this). a (params this ! i) (element args i))"
  define R where "R r \<longleftrightarrow> (\<forall>i. length (params this) \<le> i \<and> i < length args \<longrightarrow> a r (args ! i))" for r
  obtain s1 where loop1: "acceptsParams_params acc (params this) args 0 s = (Inr P, s1)"
    using acceptsParams_params_verdict [OF verdict, of "params this" args 0 s]
    unfolding P_def by (cases "acceptsParams_params acc (params this) args 0 s") simp
  have loop2: "fst (acceptsParams_rest acc r args (length (params this)) s1) = Inr (R r)" for r
    unfolding R_def by (rule acceptsParams_rest_verdict [OF verdict])
  have R_short: "R r" if "\<not> length (params this) < length args" for r
    using that unfolding R_def by auto
  have "fst (FunctionType_acceptsParams acc this args s) = Inr (P \<and> (\<forall>r. rest this = Some r \<longrightarrow> R r))"
  proof (cases "rest this")
    case None
    then show ?thesis using loop1 by (cases P) (simp_all add: FunctionType_acceptsParams_def Let_def)
  next
    case (Some r)
    then show ?thesis using loop1 loop2 [of r] R_short [of r]
      by (cases P) (auto simp: FunctionType_acceptsParams_def Let_def)
  qed
  then show "fst (FunctionType_acceptsParams acc this args s) =
        Inr ((\<forall>i<length (params this). a (params this ! i) (element args i)) \<and>
             (\<forall>r. rest this = Some r \<longrightarrow>
                (\<forall>i. length (params this) \<le> i \<and> i < length args \<longrightarrow> a r (args ! i))))"
    unfolding P_def R_def .
qed

theorem acceptsParams_excess_arguments_witness:
  "fst (FunctionType_acceptsParams prim_accepts_call
      \<lparr> params = [StringType], rest = Some NumberType, returnType = BooleanType \<rparr>
      [VStr ''x'', VNum 1, VNum 2] ()) = Inr True \<and>
   fst (FunctionType_acceptsParams prim_accepts_call
      \<lparr> params = [StringType], rest = Some NumberType, returnType = BooleanType \<rparr>
      [VStr ''x'', VNum 1, VStr ''y''] ()) = Inr False \<and>
   fst (FunctionType_acceptsParams prim_accepts_call
      \<lparr> params = [StringType, NumberType], rest = Some NumberType, returnType = BooleanType \<rparr>
      [VStr ''x''] ()) = Inr False \<and>
   FunctionType_acceptsParams prim_accepts_call
      \<lparr> params = [StringType], rest = None, returnType = StringType \<rparr> [VStr ''x'', VNum 1] ()
     = FunctionType_acceptsParams prim_accepts_call
      \<lparr> params = [StringType], rest = None, returnType = StringType \<rparr> [VStr ''x''] ()"
proof -
  have h: "\<forall>p v (s :: unit). fst (prim_accepts_call p v s) = Inr (prim_accepts p v)"
    by (simp add: prim_accepts_call_def)
  note inst = acceptsParams_excess_arguments [where acc = prim_accepts_call and a = prim_accepts
      and s = "()" and act = "\<lambda>a b s. (Inr True, s)" and type_of = "\<lambda>r. r" and empty' = EmptyType
      and targs = "[]"]
  note verdict = inst [THEN conjunct2, THEN mp, OF h, unfolded all_below_list_all all_from_list_all]
  note no_rest = inst [THEN conjunct1, THEN mp, THEN conjunct1]
  have 1: "fst (FunctionType_acceptsParams prim_accepts_call
      \<lparr> params = [StringType], rest = Some NumberType, returnType = BooleanType \<rparr>
      [VStr ''x'', VNum 1, VNum 2] ()) = Inr True"
    by (subst verdict) (simp add: element_def)
  have 2: "fst (FunctionType_acceptsParams prim_accepts_call
      \<lparr> params = [StringType], rest = Some NumberType, returnType = BooleanType \<rparr>
      [VStr ''x'', VNum 1, VStr ''y''] ()) = Inr False"
    by (subst verdict) (simp add: element_def)
  have 3: "fst (FunctionType_acceptsParams prim_accepts_call
      \<lparr> params = [StringType, NumberType], rest = Some NumberType, returnType = BooleanType \<rparr>
      [VStr ''x''] ()) = Inr False"
    by (subst verdict) (simp add: element_def)
  have 4: "FunctionType_acceptsParams prim_accepts_call
      \<lparr> params = [StringType], rest = None, returnType = StringType \<rparr> [VStr ''x'', VNum 1] ()
     = FunctionType_acceptsParams prim_accepts_call
      \<lparr> params = [StringType], rest = None, returnType = StringType \<rparr> [VStr ''x''] ()"
    by (subst no_rest) simp_all
  show ?thesis using 1 2 3 4 by blast
qed

text \<open>The signature \<open>(string) => string\<close> accepts the arguments \<open>("x", 1)\<close>, and
  invoked on the types \<open>(string, number)\<close> it returns its return type.\<close>

theorem acceptsParams_excess_counterexample:
  "FunctionType_acceptsParams (accepts prim_context)
      \<lparr> params = [ContextType StringType], rest = None, returnType = ContextType StringType \<rparr>
      [VStr ''x'', VNum 1] Map.empty = (Inr True, Map.empty) \<and>
   FunctionType_invoke (Type_acceptsType prim_compareTypes) (accepts prim_context) (\<lambda>r. r) (ContextType EmptyType)
      \<lparr> params = [ContextType StringType], rest = None, returnType = ContextType StringType \<rparr>
      [ContextType StringType, ContextType NumberType] Map.empty = (Inr (ContextType StringType), Map.empty)"
  by (simp add: FunctionType_acceptsParams_def FunctionType_invoke_def acceptsParams_params.simps
      invoke_params.simps prim_context_def prim_accepts_call_def Type_acceptsType_def
      prim_compareTypes_def Let_def)


subsection \<open>Dispatch among candidate signatures\<close>



subsection \<open>The comparator and the values accepted\<close>

text \<open>What a \<open>ThisType\<close> accepts and rejects.\<close>

lemma separatesI:
  "fst (accepts ctx A v s) = Inr True \<Longrightarrow> fst (accepts ctx B v s) = Inr False \<Longrightarrow> separates ctx s A B"
  unfolding separates_def by blast

lemma ThisType_accepts_self: "r \<noteq> VNaN \<Longrightarrow> ThisType_accepts r r = Inr True"
  by (simp add: ThisType_accepts_def strict_eq_def)

lemma ThisType_accepts_uncaptured: "eq_null r \<Longrightarrow> ThisType_accepts r v = Inr True"
  by (auto simp: ThisType_accepts_def eq_null_def)

lemma instanceof_primitive:
  "\<not> is_object v \<Longrightarrow> typeof r = ''function'' \<Longrightarrow> instanceof v r = Inr False"
  by (cases r) simp_all

lemma ThisType_rejects:
  "\<not> eq_null r \<Longrightarrow> v \<noteq> r \<Longrightarrow> (typeof r = ''function'' \<longrightarrow> instanceof v r = Inr False) \<Longrightarrow>
   ThisType_accepts r v = Inr False"
  by (auto simp: ThisType_accepts_def strict_eq_def)

lemma ThisType_rejects_primitive:
  "\<not> eq_null r \<Longrightarrow> v \<noteq> r \<Longrightarrow> \<not> is_object v \<Longrightarrow> ThisType_accepts r v = Inr False"
  by (rule ThisType_rejects) (simp_all add: instanceof_primitive)

lemma ThisType_separates_from:
  assumes "r \<noteq> VNaN"
    and "\<And>v. v \<noteq> VUndefined \<Longrightarrow> v = r \<or> v = VNull \<Longrightarrow> fst (accepts ctx A v s) = Inr False"
  shows "separates ctx s (ThisType r) A"
proof (cases "eq_null r")
  case True
  show ?thesis
    by (rule separatesI [of _ _ VNull]) (use True assms(2) in \<open>simp_all add: ThisType_accepts_uncaptured\<close>)
next
  case False
  then have "r \<noteq> VUndefined" by (auto simp: eq_null_def)
  then show ?thesis
    by (intro separatesI [of _ _ r]) (use assms in \<open>simp_all add: ThisType_accepts_self\<close>)
qed

text \<open>
  Claim C3, amended. When \<open>A.compareWith(B)\<close> returns \<open>1\<close> some value is accepted by
  \<open>A\<close> and rejected by \<open>B\<close>, and when it returns \<open>-1\<close> some value is accepted by
  \<open>B\<close> and rejected by \<open>A\<close>, for these pairs: \<open>A\<close> a \<open>VoidType\<close> or a
  \<open>SymbolLiteralType\<close> and \<open>B\<close> a \<open>VoidType\<close>, a \<open>SymbolLiteralType\<close>, a
  \<open>NullableType\<close> or a \<open>ThisType\<close> whose captured value is neither \<open>NaN\<close> nor
  the symbol of \<open>A\<close> (the result is never \<open>1\<close>); \<open>A\<close> a \<open>NullableType\<close> and
  \<open>B\<close> a \<open>VoidType\<close> (the result is \<open>1\<close>); \<open>A\<close> a \<open>ThisType\<close> that has
  captured a value and \<open>B\<close> a \<open>VoidType\<close>, a \<open>NullableType\<close> or a
  \<open>SymbolLiteralType\<close> of another symbol (the result is \<open>-1\<close>); two \<open>ThisType\<close>s
  compared as \<open>-1\<close> when, if \<open>A\<close> has captured a function, the test
  \<open>instanceof\<close> of the value captured by \<open>B\<close> against it returns false (it does
  not throw and does not hold); two \<open>ThisType\<close>s compared as \<open>1\<close> when \<open>B\<close> has
  captured a value other than that of \<open>A\<close>, which is not \<open>NaN\<close>. A value is
  accepted when \<open>accepts\<close> returns true and rejected when it returns false.
\<close>

theorem compareWith_witnessed:
  "VoidType_compareWith B \<noteq> 1 \<and>
   (VoidType_compareWith B = - 1 \<and>
      (B = SymbolLiteralType b \<or> B = NullableType T \<or> (B = ThisType r \<and> r \<noteq> VNaN)) \<longrightarrow>
      separates (ctx :: 'x TypeContext) s B VoidType) \<and>
   SymbolLiteralType_compareWith a B \<noteq> 1 \<and>
   (SymbolLiteralType_compareWith a B = - 1 \<and>
      (B = VoidType \<or> B = SymbolLiteralType b \<or> B = NullableType T \<or>
       (B = ThisType r \<and> r \<noteq> VNaN \<and> r \<noteq> VSym a)) \<longrightarrow>
      separates ctx s B (SymbolLiteralType a)) \<and>
   NullableType_compareWith ctx T VoidType s = (Inr 1, s) \<and>
   separates ctx s (NullableType T) VoidType \<and>
   (ThisType_compareWith ra (ThisType rb :: 'x ty) = - 1 \<and>
      (typeof ra = ''function'' \<longrightarrow> instanceof rb ra = Inr False) \<longrightarrow>
      separates ctx s (ThisType rb) (ThisType ra)) \<and>
   (ThisType_compareWith ra (ThisType rb :: 'x ty) = 1 \<and> \<not> eq_null rb \<and> ra \<noteq> VNaN \<and> ra \<noteq> rb \<longrightarrow>
      separates ctx s (ThisType ra) (ThisType rb)) \<and>
   (\<not> eq_null ra \<and> (B = VoidType \<or> B = NullableType T \<or> (B = SymbolLiteralType b \<and> ra \<noteq> VSym b)) \<longrightarrow>
      ThisType_compareWith ra B = - 1 \<and> separates ctx s B (ThisType ra))"
proof (intro conjI impI)
  show "VoidType_compareWith B \<noteq> 1"
    by (cases B) (simp_all add: VoidType_compareWith_def)
  show "SymbolLiteralType_compareWith a B \<noteq> 1"
    by (cases B) (simp_all add: SymbolLiteralType_compareWith_def)
  show "NullableType_compareWith ctx T VoidType s = (Inr 1, s)"
    by (simp add: NullableType_compareWith_def)
  show "separates ctx s (NullableType T) VoidType"
    by (rule separatesI [of _ _ VNull])
      (simp_all add: NullableType_accepts_def eq_null_def VoidType_accepts_def strict_eq_def)
next
  assume "VoidType_compareWith B = - 1 \<and>
      (B = SymbolLiteralType b \<or> B = NullableType T \<or> (B = ThisType r \<and> r \<noteq> VNaN))"
  then consider "B = SymbolLiteralType b" | "B = NullableType T" | "B = ThisType r" "r \<noteq> VNaN"
    by blast
  then show "separates ctx s B VoidType"
  proof cases
    case 1
    show ?thesis unfolding 1
      by (rule separatesI [of _ _ "VSym b"])
        (simp_all add: SymbolLiteralType_accepts_def VoidType_accepts_def strict_eq_def)
  next
    case 2
    show ?thesis unfolding 2
      by (rule separatesI [of _ _ VNull])
        (simp_all add: NullableType_accepts_def eq_null_def VoidType_accepts_def strict_eq_def)
  next
    case 3
    show ?thesis unfolding 3(1)
      by (rule ThisType_separates_from [OF 3(2)]) (simp add: VoidType_accepts_def strict_eq_def)
  qed
next
  assume h: "SymbolLiteralType_compareWith a B = - 1 \<and>
      (B = VoidType \<or> B = SymbolLiteralType b \<or> B = NullableType T \<or>
       (B = ThisType r \<and> r \<noteq> VNaN \<and> r \<noteq> VSym a))"
  then consider "B = VoidType" | "B = SymbolLiteralType b" | "B = NullableType T"
    | "B = ThisType r" "r \<noteq> VNaN" "r \<noteq> VSym a"
    by blast
  then show "separates ctx s B (SymbolLiteralType a)"
  proof cases
    case 1
    show ?thesis unfolding 1
      by (rule separatesI [of _ _ VUndefined])
        (simp_all add: SymbolLiteralType_accepts_def VoidType_accepts_def strict_eq_def)
  next
    case 2
    with h have "b \<noteq> a"
      by (auto simp: SymbolLiteralType_compareWith_def strict_eq_def split: if_splits)
    then show ?thesis unfolding 2
      by (intro separatesI [of _ _ "VSym b"])
        (simp_all add: SymbolLiteralType_accepts_def strict_eq_def)
  next
    case 3
    show ?thesis unfolding 3
      by (rule separatesI [of _ _ VNull])
        (simp_all add: NullableType_accepts_def eq_null_def SymbolLiteralType_accepts_def strict_eq_def)
  next
    case 4
    show ?thesis unfolding 4(1)
      by (rule ThisType_separates_from [OF 4(2)])
        (use 4(3) in \<open>auto simp: SymbolLiteralType_accepts_def strict_eq_def\<close>)
  qed
next
  assume h: "ThisType_compareWith ra (ThisType rb :: 'x ty) = - 1 \<and>
     (typeof ra = ''function'' \<longrightarrow> instanceof rb ra = Inr False)"
  then have t: "truthy ra" "truthy rb" "rb \<noteq> ra"
    by (auto simp: ThisType_compareWith_def strict_eq_def split: if_splits)
  then have "rb \<noteq> VNaN" "\<not> eq_null ra" by (auto simp: eq_null_def)
  then show "separates ctx s (ThisType rb) (ThisType ra)"
    using h t by (intro separatesI [of _ _ rb]) (simp_all add: ThisType_accepts_self ThisType_rejects)
next
  assume h: "ThisType_compareWith ra (ThisType rb :: 'x ty) = 1 \<and> \<not> eq_null rb \<and> ra \<noteq> VNaN \<and> ra \<noteq> rb"
  then have falsy: "\<not> truthy ra"
    by (auto simp: ThisType_compareWith_def split: if_splits)
  show "separates ctx s (ThisType ra) (ThisType rb)"
  proof (cases "eq_null ra")
    case True
    have "VUndefined \<noteq> rb" using h by (auto simp: eq_null_def)
    then show ?thesis
      using h True
      by (intro separatesI [of _ _ VUndefined])
        (simp_all add: ThisType_accepts_uncaptured ThisType_rejects_primitive)
  next
    case False
    with falsy have "\<not> is_object ra" by (cases ra) (simp_all add: eq_null_def)
    then show ?thesis
      using h
      by (intro separatesI [of _ _ ra]) (simp_all add: ThisType_accepts_self ThisType_rejects_primitive)
  qed
next
  assume h: "\<not> eq_null ra \<and>
     (B = VoidType \<or> B = NullableType T \<or> (B = SymbolLiteralType b \<and> ra \<noteq> VSym b))"
  then show "ThisType_compareWith ra B = - 1"
    by (auto simp: ThisType_compareWith_def)
  from h have n: "\<not> eq_null ra" "ra \<noteq> VUndefined" "ra \<noteq> VNull" by (auto simp: eq_null_def)
  from h consider "B = VoidType" | "B = NullableType T" | "B = SymbolLiteralType b" "ra \<noteq> VSym b"
    by blast
  then show "separates ctx s B (ThisType ra)"
  proof cases
    case 1
    show ?thesis unfolding 1 using n
      by (intro separatesI [of _ _ VUndefined])
        (simp_all add: VoidType_accepts_def strict_eq_def ThisType_rejects_primitive)
  next
    case 2
    show ?thesis unfolding 2 using n
      by (intro separatesI [of _ _ VNull])
        (simp_all add: NullableType_accepts_def eq_null_def ThisType_rejects_primitive)
  next
    case 3
    show ?thesis unfolding 3(1) using n 3(2)
      by (intro separatesI [of _ _ "VSym b"])
        (simp_all add: SymbolLiteralType_accepts_def strict_eq_def ThisType_rejects_primitive)
  qed
qed

theorem compareWith_witnessed_witness:
  "VoidType_compareWith (SymbolLiteralType 4 :: prim ty) = - 1 \<and>
   separates prim_context Map.empty (SymbolLiteralType 4) VoidType \<and>
   SymbolLiteralType_compareWith 3 (SymbolLiteralType 4 :: prim ty) = - 1 \<and>
   separates prim_context Map.empty (SymbolLiteralType 4) (SymbolLiteralType 3) \<and>
   ThisType_compareWith (VFunction 5 [] True) (ThisType (VObject 6 []) :: prim ty) = - 1 \<and>
   separates prim_context Map.empty (ThisType (VObject 6 [])) (ThisType (VFunction 5 [] True)) \<and>
   ThisType_compareWith VUndefined (ThisType (VObject 6 []) :: prim ty) = 1 \<and>
   separates prim_context Map.empty (ThisType VUndefined) (ThisType (VObject 6 [])) \<and>
   ThisType_compareWith (VFunction 5 [] True) (VoidType :: prim ty) = - 1 \<and>
   separates prim_context Map.empty VoidType (ThisType (VFunction 5 [] True))"
proof -
  note inst = compareWith_witnessed [where ctx = prim_context and s = Map.empty
      and B = "SymbolLiteralType 4" and b = 4 and a = 3 and T = VoidType
      and r = VUndefined and rb = "VObject 6 []"]
  note void = compareWith_witnessed [where ctx = prim_context and s = Map.empty
      and B = VoidType and b = 4 and a = 3 and T = VoidType
      and r = VUndefined and ra = "VFunction 5 [] True" and rb = "VObject 6 []"]
  have 1: "VoidType_compareWith (SymbolLiteralType 4 :: prim ty) = - 1"
    by (simp add: VoidType_compareWith_def)
  have 2: "SymbolLiteralType_compareWith 3 (SymbolLiteralType 4 :: prim ty) = - 1"
    by (simp add: SymbolLiteralType_compareWith_def strict_eq_def)
  have 3: "ThisType_compareWith (VFunction 5 [] True) (ThisType (VObject 6 []) :: prim ty) = - 1"
    by (simp add: ThisType_compareWith_def strict_eq_def)
  have 4: "ThisType_compareWith VUndefined (ThisType (VObject 6 []) :: prim ty) = 1"
    by (simp add: ThisType_compareWith_def)
  have 5: "ThisType_compareWith (VFunction 5 [] True) (VoidType :: prim ty) = - 1"
    by (simp add: ThisType_compareWith_def)
  show ?thesis
    using 1 2 3 4 5 inst [where ra = "VFunction 5 [] True"] inst [where ra = VUndefined] void
    by (simp add: eq_null_def)
qed

text \<open>Two \<open>ThisType\<close>s that have captured nothing compare as \<open>1\<close> and accept
  the same values; such a \<open>ThisType\<close> compares as \<open>-1\<close> with a \<open>VoidType\<close> and
  accepts all that it accepts.\<close>

theorem ThisType_compareWith_counterexample:
  "ThisType_compareWith VUndefined (ThisType VUndefined :: prim ty) = 1 \<and>
   \<not> separates prim_context Map.empty (ThisType VUndefined) (ThisType VUndefined) \<and>
   ThisType_compareWith VUndefined (ThisType VNull :: prim ty) = 1 \<and>
   \<not> separates prim_context Map.empty (ThisType VUndefined) (ThisType VNull) \<and>
   ThisType_compareWith VUndefined (VoidType :: prim ty) = - 1 \<and>
   \<not> separates prim_context Map.empty VoidType (ThisType VUndefined)"
  by (simp add: ThisType_compareWith_def separates_def ThisType_accepts_def eq_null_def)

subsection \<open>FlowIntoType\<close>

text \<open>A check through a slot whose \<open>recorded\<close> is set and whose bound is not a
  \<open>FlowIntoType\<close>, when the check of the bound succeeds.\<close>

lemma FlowIntoType_accepts_set:
  assumes "\<forall>tp. bound \<noteq> Some (FlowIntoType tp)" and "s a = Some X"
    and "(case bound of None \<Rightarrow> (Inr True, s) | Some b \<Rightarrow> call b input s) = (Inr True, sa)"
  shows "FlowIntoType_accepts ctx call a bound input s =
           (case accepts_x ctx X input sa of
              (Inl e, sb) \<Rightarrow> (Inl e, sb)
            | (Inr True, sb) \<Rightarrow> (Inr True, sb)
            | (Inr False, sb) \<Rightarrow> (Inr True, sb(a \<mapsto> unionT ctx X (typeOf ctx input))))"
proof (cases bound)
  case None
  with assms show ?thesis by (auto simp: FlowIntoType_accepts_def)
next
  case (Some b)
  with assms(1) have nf: "\<And>tp. b \<noteq> FlowIntoType tp" by simp
  from Some assms(3) have call: "call b input s = (Inr True, sa)" by simp
  show ?thesis
    using nf Some assms(2) call
    by (cases b) (auto simp: FlowIntoType_accepts_def)
qed

lemma FlowIntoType_collectErrors_set:
  assumes "\<forall>tp. bound \<noteq> Some (FlowIntoType tp)" and "s a = Some X"
    and "(case bound of None \<Rightarrow> (Inr False, validation, s)
          | Some b \<Rightarrow> call b validation path input s) = (Inr False, va, sa)"
  shows "FlowIntoType_collectErrors ctx call a bound validation path input s =
           (case accepts_x ctx X input sa of
              (Inl e, sb) \<Rightarrow> (Inl e, va, sb)
            | (Inr True, sb) \<Rightarrow> (Inr False, va, sb)
            | (Inr False, sb) \<Rightarrow> (Inr False, va, sb(a \<mapsto> unionT ctx X (typeOf ctx input))))"
proof (cases bound)
  case None
  with assms show ?thesis by (auto simp: FlowIntoType_collectErrors_def)
next
  case (Some b)
  with assms(1) have nf: "\<And>tp. b \<noteq> FlowIntoType tp" by simp
  from Some assms(3) have call: "call b validation path input s = (Inr False, va, sa)" by simp
  show ?thesis
    using nf Some assms(2) call
    by (cases b) (auto simp: FlowIntoType_collectErrors_def)
qed

text \<open>
  Claim C4. Take a slot \<open>a\<close> that has recorded \<open>X\<close>, whose bound is not a
  \<open>FlowIntoType\<close>, and a value that the bound, if any, accepts. If
  \<open>X.accepts\<close> returns false on the value, the check succeeds and sets \<open>recorded\<close>
  to exactly \<open>union(X, typeOf(value))\<close>; if it returns true, the check succeeds and
  writes nothing. This holds for \<open>accepts\<close> and for \<open>collectErrors\<close> (which
  returns false on success and records no error of its own). So the only write to a slot
  that is set is the union of what it held with one more type. After a widening, a value
  \<open>v\<close> checked through the same slot passes, whether or not the union accepts it, when
  the bound accepts \<open>v\<close>. The states \<open>sa\<close>, \<open>sb\<close>, \<open>sc\<close>, \<open>sd\<close> are those
  left by the calls on the bound and on the recorded type.
\<close>

theorem FlowIntoType_widening:
  "(s a = Some X \<and> (\<forall>tp. bound \<noteq> Some (FlowIntoType tp)) \<and>
      (case bound of None \<Rightarrow> (Inr True, s) | Some b \<Rightarrow> accepts ctx b input s) = (Inr True, sa) \<and>
      accepts_x ctx X input sa = (Inr fits, sb) \<longrightarrow>
      accepts ctx (FlowIntoType (TypeParameter a bound)) input s =
        (Inr True, if fits then sb else sb(a \<mapsto> unionT ctx X (typeOf ctx input)))) \<and>
   (s a = Some X \<and> (\<forall>tp. bound \<noteq> Some (FlowIntoType tp)) \<and>
      (case bound of None \<Rightarrow> (Inr False, validation, s)
       | Some b \<Rightarrow> collectErrors ctx b validation path input s) = (Inr False, va, sa) \<and>
      accepts_x ctx X input sa = (Inr fits, sb) \<longrightarrow>
      collectErrors ctx (FlowIntoType (TypeParameter a bound)) validation path input s =
        (Inr False, va, if fits then sb else sb(a \<mapsto> unionT ctx X (typeOf ctx input)))) \<and>
   (s a = Some X \<and> (\<forall>tp. bound \<noteq> Some (FlowIntoType tp)) \<and>
      (case bound of None \<Rightarrow> (Inr True, s) | Some b \<Rightarrow> accepts ctx b input s) = (Inr True, sa) \<and>
      accepts_x ctx X input sa = (Inr False, sb) \<and>
      (case bound of None \<Rightarrow> (Inr True, sb(a \<mapsto> unionT ctx X (typeOf ctx input)))
       | Some b \<Rightarrow> accepts ctx b v (sb(a \<mapsto> unionT ctx X (typeOf ctx input)))) = (Inr True, sc) \<and>
      accepts_x ctx (unionT ctx X (typeOf ctx input)) v sc = (Inr again, sd) \<longrightarrow>
      fst (accepts ctx (FlowIntoType (TypeParameter a bound)) v
             (snd (accepts ctx (FlowIntoType (TypeParameter a bound)) input s))) = Inr True)"
proof (intro conjI impI)
  assume h: "s a = Some X \<and> (\<forall>tp. bound \<noteq> Some (FlowIntoType tp)) \<and>
      (case bound of None \<Rightarrow> (Inr True, s) | Some b \<Rightarrow> accepts ctx b input s) = (Inr True, sa) \<and>
      accepts_x ctx X input sa = (Inr fits, sb)"
  then show "accepts ctx (FlowIntoType (TypeParameter a bound)) input s =
        (Inr True, if fits then sb else sb(a \<mapsto> unionT ctx X (typeOf ctx input)))"
    using FlowIntoType_accepts_set [of bound s a X "accepts ctx" input sa ctx] by simp
next
  assume h: "s a = Some X \<and> (\<forall>tp. bound \<noteq> Some (FlowIntoType tp)) \<and>
      (case bound of None \<Rightarrow> (Inr False, validation, s)
       | Some b \<Rightarrow> collectErrors ctx b validation path input s) = (Inr False, va, sa) \<and>
      accepts_x ctx X input sa = (Inr fits, sb)"
  then show "collectErrors ctx (FlowIntoType (TypeParameter a bound)) validation path input s =
        (Inr False, va, if fits then sb else sb(a \<mapsto> unionT ctx X (typeOf ctx input)))"
    using FlowIntoType_collectErrors_set [of bound s a X validation "collectErrors ctx" path input
        va sa ctx] by simp
next
  let ?U = "unionT ctx X (typeOf ctx input)"
  assume h: "s a = Some X \<and> (\<forall>tp. bound \<noteq> Some (FlowIntoType tp)) \<and>
      (case bound of None \<Rightarrow> (Inr True, s) | Some b \<Rightarrow> accepts ctx b input s) = (Inr True, sa) \<and>
      accepts_x ctx X input sa = (Inr False, sb) \<and>
      (case bound of None \<Rightarrow> (Inr True, sb(a \<mapsto> ?U))
       | Some b \<Rightarrow> accepts ctx b v (sb(a \<mapsto> ?U))) = (Inr True, sc) \<and>
      accepts_x ctx ?U v sc = (Inr again, sd)"
  then have first: "accepts ctx (FlowIntoType (TypeParameter a bound)) input s = (Inr True, sb(a \<mapsto> ?U))"
    using FlowIntoType_accepts_set [of bound s a X "accepts ctx" input sa ctx] by simp
  have "(sb(a \<mapsto> ?U)) a = Some ?U" by simp
  with h have "accepts ctx (FlowIntoType (TypeParameter a bound)) v (sb(a \<mapsto> ?U)) =
      (Inr True, if again then sd else sd(a \<mapsto> unionT ctx ?U (typeOf ctx v)))"
    using FlowIntoType_accepts_set [of bound "sb(a \<mapsto> ?U)" a ?U "accepts ctx" v sc ctx] by simp
  with first show "fst (accepts ctx (FlowIntoType (TypeParameter a bound)) v
             (snd (accepts ctx (FlowIntoType (TypeParameter a bound)) input s))) = Inr True"
    by simp
qed

theorem FlowIntoType_widening_witness:
  "accepts prim_context (FlowIntoType (TypeParameter 0 None)) (VNum 1) (Map.empty(0 \<mapsto> StringType))
     = (Inr True, Map.empty(0 \<mapsto> UnionType StringType NumberType)) \<and>
   accepts prim_context (FlowIntoType (TypeParameter 0 None)) (VStr ''hi'')
       (Map.empty(0 \<mapsto> UnionType StringType NumberType))
     = (Inr True, Map.empty(0 \<mapsto> UnionType StringType NumberType)) \<and>
   collectErrors prim_context (FlowIntoType (TypeParameter 0 None)) [] [] (VNum 1) (Map.empty(0 \<mapsto> StringType))
     = (Inr False, [], Map.empty(0 \<mapsto> UnionType StringType NumberType)) \<and>
   fst (accepts prim_context (FlowIntoType (TypeParameter 0 None)) (VStr ''hi'')
          (snd (accepts prim_context (FlowIntoType (TypeParameter 0 None)) (VNum 1)
                  (Map.empty(0 \<mapsto> StringType))))) = Inr True"
proof -
  note inst = FlowIntoType_widening [where ctx = prim_context and a = 0 and bound = None
      and validation = "[]" and path = "[]" and va = "[]"]
  note first = inst [where s = "Map.empty(0 \<mapsto> StringType)" and X = StringType and input = "VNum 1"
      and sa = "Map.empty(0 \<mapsto> StringType)" and sb = "Map.empty(0 \<mapsto> StringType)"
      and fits = False and v = "VStr ''hi''"
      and sc = "Map.empty(0 \<mapsto> UnionType StringType NumberType)"
      and sd = "Map.empty(0 \<mapsto> UnionType StringType NumberType)" and again = True]
  note second = inst [where s = "Map.empty(0 \<mapsto> UnionType StringType NumberType)"
      and X = "UnionType StringType NumberType" and input = "VStr ''hi''"
      and sa = "Map.empty(0 \<mapsto> UnionType StringType NumberType)"
      and sb = "Map.empty(0 \<mapsto> UnionType StringType NumberType)" and fits = True]
  have 1: "accepts prim_context (FlowIntoType (TypeParameter 0 None)) (VNum 1) (Map.empty(0 \<mapsto> StringType))
     = (Inr True, Map.empty(0 \<mapsto> UnionType StringType NumberType))"
    using first [THEN conjunct1] by (simp add: prim_context_def prim_accepts_call_def)
  have 2: "accepts prim_context (FlowIntoType (TypeParameter 0 None)) (VStr ''hi'')
       (Map.empty(0 \<mapsto> UnionType StringType NumberType))
     = (Inr True, Map.empty(0 \<mapsto> UnionType StringType NumberType))"
    using second [THEN conjunct1] by (simp add: prim_context_def prim_accepts_call_def)
  have 3: "collectErrors prim_context (FlowIntoType (TypeParameter 0 None)) [] [] (VNum 1)
       (Map.empty(0 \<mapsto> StringType))
     = (Inr False, [], Map.empty(0 \<mapsto> UnionType StringType NumberType))"
    using first [THEN conjunct2, THEN conjunct1] by (simp add: prim_context_def prim_accepts_call_def)
  have 4: "fst (accepts prim_context (FlowIntoType (TypeParameter 0 None)) (VStr ''hi'')
          (snd (accepts prim_context (FlowIntoType (TypeParameter 0 None)) (VNum 1)
                  (Map.empty(0 \<mapsto> StringType))))) = Inr True"
    using first [THEN conjunct2, THEN conjunct2]
    by (simp add: prim_context_def prim_accepts_call_def)
  show ?thesis using 1 2 3 4 by blast
qed

subsection \<open>Throwing outside \<open>assert\<close>\<close>

text \<open>
  Claim C9, at a failing input. A \<open>ThisType\<close> that has captured a function whose
  \<open>prototype\<close> is not an object (an arrow function, say), checked against an object
  other than that function: \<open>accepts\<close> and \<open>collectErrors\<close> throw the
  \<open>TypeError\<close> of \<open>input instanceof recorded\<close>, and so does the \<open>accepts\<close> of a
  \<open>NullableType\<close> around it. The check \<open>typeof recorded === 'function'\<close> that
  guards the \<open>instanceof\<close> lets such a function through.
\<close>

theorem ThisType_instanceof_throws:
  "accepts prim_context (ThisType (VFunction 1 [] False)) (VObject 2 []) Map.empty
     = (Inl TypeError, Map.empty) \<and>
   collectErrors prim_context (ThisType (VFunction 1 [] False)) [] [] (VObject 2 []) Map.empty
     = (Inl TypeError, [], Map.empty) \<and>
   accepts prim_context (NullableType (ThisType (VFunction 1 [] False))) (VObject 2 []) Map.empty
     = (Inl TypeError, Map.empty)"
  by (simp add: ThisType_accepts_def ThisType_collectErrors_def NullableType_accepts_def
      strict_eq_def eq_null_def)

end
